theory Spec2Isabelle
  imports Complex_Main "HOL-Library.Sublist"
begin

section \<open>Strings\<close>

text \<open>
  A JavaScript string is modelled as a \<^typ>\<open>string\<close> whose characters are the code
  points U+0000 to U+00FF. On that range the three string primitives the server uses are
  written out as ECMAScript defines them: \<^verbatim>\<open>\s\<close> and \<^verbatim>\<open>trim\<close> share one set of blank
  characters (tab, line feed, vertical tab, form feed, carriage return, space and the
  no-break space U+00A0), and \<^verbatim>\<open>toLowerCase\<close> moves A-Z and the capital letters U+00C0 to
  U+00DE (the multiplication sign U+00D7 apart) up by 32.
\<close>

definition isWhiteSpace :: "char \<Rightarrow> bool" where
  "isWhiteSpace c = (of_char c \<in> {9, 10, 11, 12, 13, 32, 160 :: nat})"

definition toLowerChar :: "char \<Rightarrow> char" where
  "toLowerChar c =
     (let n = (of_char c :: nat)
      in if (65 \<le> n \<and> n \<le> 90) \<or> (192 \<le> n \<and> n \<le> 222 \<and> n \<noteq> 215)
         then char_of (n + 32) else c)"

definition toLowerCase :: "string \<Rightarrow> string" where
  "toLowerCase s = map toLowerChar s"

definition trim :: "string \<Rightarrow> string" where
  "trim s = rev (dropWhile isWhiteSpace (rev (dropWhile isWhiteSpace s)))"

text \<open>
  \<^verbatim>\<open>s.split(/\s+/)\<close>: the pieces of \<open>s\<close> between the maximal runs of blanks. A string
  that starts or ends with a blank has an empty first or last piece, and the empty string
  has the single piece \<open>''''\<close>. The first argument is the piece being read.
\<close>

function split_ws :: "string \<Rightarrow> string \<Rightarrow> string list" where
  "split_ws cur [] = [cur]"
| "split_ws cur (c # cs) =
     (if isWhiteSpace c then cur # split_ws [] (dropWhile isWhiteSpace cs)
      else split_ws (cur @ [c]) cs)"
  by pat_completeness auto
termination
  by (relation "measure (\<lambda>(cur, s). length s)")
     (auto simp: length_dropWhile_le less_Suc_eq_le)

text \<open>\<^verbatim>\<open>text.toLowerCase().split(/\s+/).filter(Boolean)\<close>, used by both scanners.\<close>

definition words_of :: "string \<Rightarrow> string list" where
  "words_of text = filter (\<lambda>w. w \<noteq> []) (split_ws [] (toLowerCase text))"

section \<open>Heuristic analyzer\<close>

record heuristics =
  score :: int
  repeats :: nat
  fillers :: nat
  issues :: "string list"

definition fillerWords :: "string list" where
  "fillerWords = [''um'', ''uh'', ''erm'', ''hmm'', ''like'']"

text \<open>The \<^verbatim>\<open>for (let i = 1; i < words.length; i++)\<close> loop of \<^verbatim>\<open>analyzeHeuristics\<close>.\<close>

function heuristics_loop :: "string list \<Rightarrow> nat \<Rightarrow> nat \<Rightarrow> nat \<Rightarrow> nat \<times> nat" where
  "heuristics_loop ws i r f =
     (if i < length ws
      then heuristics_loop ws (i + 1)
             (if ws ! i = ws ! (i - 1) then r + 1 else r)
             (if ws ! i \<in> set fillerWords then f + 1 else f)
      else (r, f))"
  by pat_completeness auto
termination
  by (relation "measure (\<lambda>(ws, i, r, f). length ws - i)") auto

declare heuristics_loop.simps [simp del]

definition analyzeHeuristics :: "string \<Rightarrow> heuristics" where
  "analyzeHeuristics text =
     (let ws = words_of text;
          (r, f) = heuristics_loop ws 1 0 0;
          s = 100 - int r * 10 - int f * 5;
          s = (if s < 30 then 30 else s)
      in \<lparr>score = s, repeats = r, fillers = f, issues = []\<rparr>)"

section \<open>Progression engine\<close>

text \<open>
  Calendar dates (the \<^verbatim>\<open>YYYY-MM-DD\<close> strings of \<^verbatim>\<open>getTodayDate\<close>) are day numbers and
  \<^verbatim>\<open>null\<close> is \<open>None\<close>. The clock is an argument: \<open>today\<close> is what \<^verbatim>\<open>getTodayDate()\<close>
  returns during the call, and the date that the call computes for yesterday is
  \<open>today - 1\<close> (the server steps one day back in its local time and prints the result in
  UTC, which is the day before \<open>today\<close> unless the local offset changes in between).
  Experience points, level and the fluency score are integers, the session duration is a
  number of seconds that need not be whole, and \<^verbatim>\<open>/\<close> is exact division (the server computes
  it in double precision).
\<close>

record user_stats =
  totalSessions :: nat
  totalSeconds :: rat
  dailyMinutes :: rat

record profile =
  username :: string
  password :: "string option"
  xp :: int
  level :: int
  streak :: nat
  lastActiveDate :: "int option"
  badges :: "string list"
  stats :: user_stats

record gamification =
  earnedXp :: int
  newBadges :: "string list"

definition calculateLevel :: "int \<Rightarrow> int" where
  "calculateLevel x = \<lfloor>rat_of_int x / 100\<rfloor> + 1"

text \<open>
  The closure \<^verbatim>\<open>awardBadge\<close> writes to \<^verbatim>\<open>user.badges\<close> and to \<^verbatim>\<open>newBadges\<close>; the pair is
  passed through.
\<close>

definition awardBadge :: "string \<Rightarrow> string list \<times> string list \<Rightarrow> string list \<times> string list" where
  "awardBadge name acc =
     (if name \<notin> set (fst acc) then (fst acc @ [name], snd acc @ [name]) else acc)"

definition updateGamification :: "int \<Rightarrow> profile \<Rightarrow> rat \<Rightarrow> int \<Rightarrow> gamification \<times> profile" where
  "updateGamification today user sessionDurationSec fluencyScore =
     (let st = stats user;
          st = st\<lparr>totalSessions := totalSessions st + 1\<rparr>;
          st = st\<lparr>totalSeconds := totalSeconds st + sessionDurationSec\<rparr>;
          st = (if lastActiveDate user \<noteq> Some today then st\<lparr>dailyMinutes := 0\<rparr> else st);
          st = st\<lparr>dailyMinutes := dailyMinutes st + sessionDurationSec / 60\<rparr>;
          user = user\<lparr>stats := st\<rparr>;
          user = (if lastActiveDate user \<noteq> Some today
                  then (let yesterday = today - 1;
                            user = (if lastActiveDate user = Some yesterday
                                    then user\<lparr>streak := streak user + 1\<rparr>
                                    else user\<lparr>streak := 1\<rparr>)
                        in user\<lparr>lastActiveDate := Some today\<rparr>)
                  else user);
          earned = 10 + \<lfloor>sessionDurationSec / 10\<rfloor>;
          earned = (if fluencyScore \<ge> 80 then earned + 20 else earned);
          user = user\<lparr>xp := xp user + earned\<rparr>;
          user = user\<lparr>level := calculateLevel (xp user)\<rparr>;
          acc = (badges user, []);
          acc = (if totalSessions (stats user) \<ge> 1 then awardBadge ''First Step'' acc else acc);
          acc = (if totalSessions (stats user) \<ge> 10 then awardBadge ''Dedicated Speaker'' acc else acc);
          acc = (if streak user \<ge> 3 then awardBadge ''Consistency Champion'' acc else acc);
          acc = (if fluencyScore \<ge> 90 then awardBadge ''Smooth Speaker'' acc else acc);
          acc = (if xp user \<ge> 500 then awardBadge ''XP Hunter'' acc else acc)
      in (\<lparr>earnedXp = earned, newBadges = snd acc\<rparr>, user\<lparr>badges := fst acc\<rparr>))"

text \<open>A run of calls on one profile, each with its date, duration and score.\<close>

fun run_calls :: "profile \<Rightarrow> (int \<times> rat \<times> int) list \<Rightarrow> gamification list \<times> profile" where
  "run_calls user [] = ([], user)"
| "run_calls user ((today, d, f) # cs) =
     (let (g, user') = updateGamification today user d f;
          (gs, user'') = run_calls user' cs
      in (g # gs, user''))"

section \<open>User registry\<close>

type_synonym users = "string \<rightharpoonup> profile"

text \<open>The demo user that is seeded when the server starts, on day \<open>d\<close>.\<close>

definition seed_users :: "int \<Rightarrow> users" where
  "seed_users d = [''Demo User'' \<mapsto>
     \<lparr>username = ''Demo User'', password = Some ''123'', xp = 120, level = 2, streak = 1,
      lastActiveDate = Some d, badges = [''First Step''],
      stats = \<lparr>totalSessions = 5, totalSeconds = 300, dailyMinutes = 5\<rparr>\<rparr>]"

datatype register_response = RegisterBadRequest string | Registered string

text \<open>\<^verbatim>\<open>POST /users\<close>; an empty string stands for a missing field (both are falsy).\<close>

definition register_user :: "users \<Rightarrow> string \<Rightarrow> string \<Rightarrow> register_response \<times> users" where
  "register_user us name pw =
     (if name = [] \<or> pw = [] then (RegisterBadRequest ''Username and Password required'', us)
      else let clean = trim name
           in if us clean \<noteq> None then (RegisterBadRequest ''User already exists'', us)
              else (Registered clean,
                    us(clean \<mapsto> \<lparr>username = clean, password = Some pw, xp = 0, level = 1,
                       streak = 0, lastActiveDate = None, badges = [],
                       stats = \<lparr>totalSessions = 0, totalSeconds = 0, dailyMinutes = 0\<rparr>\<rparr>)))"

text \<open>
  \<^verbatim>\<open>POST /coach\<close>, as far as the registry is concerned. The profile is created first when
  it is missing. A missing transcript makes \<^verbatim>\<open>analyzeHeuristics\<close> throw, and the call to the
  language service may throw: both end in the handler's \<^verbatim>\<open>catch\<close>, after the profile was
  created and before the progression engine runs. \<open>ai_ok\<close> tells whether the language
  service answered. The arguments are the fields of the request after the handler's
  defaults (\<open>Demo User\<close>, duration 0) have been filled in; the session ledger is left out.
\<close>

datatype coach_response = CoachError | CoachOk heuristics gamification

definition coach :: "users \<Rightarrow> int \<Rightarrow> string \<Rightarrow> string option \<Rightarrow> rat \<Rightarrow> bool \<Rightarrow> coach_response \<times> users" where
  "coach us today userId transcript duration ai_ok =
     (let (user, us) =
            (case us userId of
               Some u \<Rightarrow> (u, us)
             | None \<Rightarrow>
                 (let u = \<lparr>username = userId, password = None, xp = 0, level = 1, streak = 0,
                           lastActiveDate = None, badges = [],
                           stats = \<lparr>totalSessions = 0, totalSeconds = 0, dailyMinutes = 0\<rparr>\<rparr>
                  in (u, us(userId \<mapsto> u))))
      in case transcript of
           None \<Rightarrow> (CoachError, us)
         | Some text \<Rightarrow>
             (let h = analyzeHeuristics text
              in if \<not> ai_ok then (CoachError, us)
                 else (let (g, user) = updateGamification today user duration (score h)
                       in (CoachOk h g, us(userId \<mapsto> user)))))"

inductive reachable_users :: "users \<Rightarrow> bool" where
  seeded: "reachable_users (seed_users d)"
| registered: "reachable_users us \<Longrightarrow> reachable_users (snd (register_user us name pw))"
| coached: "reachable_users us \<Longrightarrow> reachable_users (snd (coach us today userId transcript duration ai_ok))"

section \<open>Challenge state machine\<close>

text \<open>Instants are the millisecond counts of \<^verbatim>\<open>Date.now()\<close>, passed in as arguments.\<close>

record challenge =
  startTime :: int
  lastTranscript :: string
  lastChangeTime :: int
  isSpeaking :: bool

type_synonym challenges = "string \<rightharpoonup> challenge"

datatype start_response = StartBadRequest | Started

text \<open>\<^verbatim>\<open>POST /challenge/start\<close> reads the clock twice: \<open>t0\<close> and \<open>t1\<close>.\<close>

definition challenge_start :: "challenges \<Rightarrow> string \<Rightarrow> int \<Rightarrow> int \<Rightarrow> start_response \<times> challenges" where
  "challenge_start cs userId t0 t1 =
     (if userId = [] then (StartBadRequest, cs)
      else (Started, cs(userId \<mapsto>
              \<lparr>startTime = t0, lastTranscript = [], lastChangeTime = t1, isSpeaking = False\<rparr>)))"

datatype tick_response = NoActiveChallenge | TickOk | TickFail string

definition tick_fillers :: "string list" where
  "tick_fillers = [''um'', ''uh'', ''like'', ''hmm'', ''erm'', ''aa'', ''er'']"

definition quoted :: "string \<Rightarrow> string" where
  "quoted s = [CHR 0x22] @ s @ [CHR 0x22]"

definition stutter_reason :: "string \<Rightarrow> string" where
  "stutter_reason w = ''Stuttered: '' @ quoted w"

definition repetition_reason :: "string \<Rightarrow> string" where
  "repetition_reason w = ''Repetition: '' @ quoted (w @ '' '' @ w)"

definition silence_reason :: string where
  "silence_reason = ''Silence detected (> 3s)''"

text \<open>The two scanning loops of the tick handler; each returns the word it stops at.\<close>

fun filler_scan :: "string list \<Rightarrow> string option" where
  "filler_scan [] = None"
| "filler_scan (w # ws) = (if w \<in> set tick_fillers then Some w else filler_scan ws)"

function repetition_scan :: "string list \<Rightarrow> nat \<Rightarrow> string option" where
  "repetition_scan ws i =
     (if i < length ws
      then (if ws ! i = ws ! (i - 1) then Some (ws ! i) else repetition_scan ws (i + 1))
      else None)"
  by pat_completeness auto
termination
  by (relation "measure (\<lambda>(ws, i). length ws - i)") auto

declare repetition_scan.simps [simp del]

definition instant_fail :: "string \<Rightarrow> string option" where
  "instant_fail cleanText =
     (if length cleanText > 0
      then (let ws = words_of cleanText
            in case filler_scan ws of
                 Some w \<Rightarrow> Some (stutter_reason w)
               | None \<Rightarrow> map_option repetition_reason (repetition_scan ws 1))
      else None)"

text \<open>\<^verbatim>\<open>(transcript || "").trim()\<close>; a missing transcript is \<open>None\<close>.\<close>

definition cleanText_of :: "string option \<Rightarrow> string" where
  "cleanText_of transcript = trim (case transcript of None \<Rightarrow> [] | Some t \<Rightarrow> t)"

text \<open>
  \<^verbatim>\<open>POST /challenge/tick\<close>. The handler mutates the record that the registry holds, so every
  update is written back to the registry.
\<close>

definition challenge_tick :: "challenges \<Rightarrow> string \<Rightarrow> string option \<Rightarrow> int \<Rightarrow> tick_response \<times> challenges" where
  "challenge_tick cs userId transcript now =
     (case cs userId of
        None \<Rightarrow> (NoActiveChallenge, cs)
      | Some ch \<Rightarrow>
          (let cleanText = cleanText_of transcript;
               ch = (if \<not> isSpeaking ch \<and> length cleanText > 0
                     then ch\<lparr>isSpeaking := True, lastChangeTime := now, lastTranscript := cleanText\<rparr>
                     else ch)
           in case instant_fail cleanText of
                Some reason \<Rightarrow> (TickFail reason, cs(userId := None))
              | None \<Rightarrow>
                  if isSpeaking ch
                  then if cleanText \<noteq> lastTranscript ch
                       then (TickOk, cs(userId \<mapsto> ch\<lparr>lastChangeTime := now, lastTranscript := cleanText\<rparr>))
                       else if now - lastChangeTime ch > 3000
                            then (TickFail silence_reason, cs(userId := None))
                            else (TickOk, cs(userId \<mapsto> ch))
                  else (TickOk, cs(userId \<mapsto> ch))))"

inductive reachable_challenges :: "challenges \<Rightarrow> bool" where
  no_challenge: "reachable_challenges Map.empty"
| started: "reachable_challenges cs \<Longrightarrow> reachable_challenges (snd (challenge_start cs userId t0 t1))"
| ticked: "reachable_challenges cs \<Longrightarrow> reachable_challenges (snd (challenge_tick cs userId transcript now))"

text \<open>
  What every record of a reachable registry satisfies: before the first spoken text
  \<open>lastTranscript\<close> is still empty, and afterwards it is a text that the two scans accept.
\<close>

definition challenge_inv :: "challenge \<Rightarrow> bool" where
  "challenge_inv ch =
     (if isSpeaking ch then instant_fail (lastTranscript ch) = None else lastTranscript ch = [])"

text \<open>
  What the five guarded calls of \<^verbatim>\<open>awardBadge\<close> keep true of the pair they pass along,
  \<open>bs\<close> being the badges at the start of the call.
\<close>

definition award_ok :: "string list \<Rightarrow> string list \<times> string list \<Rightarrow> bool" where
  "award_ok bs acc =
     (fst acc = bs @ snd acc
      \<and> (\<forall>b. count_list (fst acc) b \<le> max 1 (count_list bs b))
      \<and> (distinct bs \<longrightarrow> distinct (fst acc)))"

section \<open>What the heuristic analyzer computes\<close>

lemma heuristics_loop_counts:
  "heuristics_loop ws i r f =
     (r + length (filter (\<lambda>j. ws ! j = ws ! (j - 1)) [i..<length ws]),
      f + length (filter (\<lambda>j. ws ! j \<in> set fillerWords) [i..<length ws]))"
proof (induction ws i r f rule: heuristics_loop.induct)
  case (1 ws i r f)
  show ?case
  proof (cases "i < length ws")
    case True
    then have "[i..<length ws] = i # [i + 1..<length ws]"
      by (simp add: upt_conv_Cons)
    with True 1 show ?thesis
      by (subst heuristics_loop.simps) simp
  next
    case False
    then show ?thesis
      by (subst heuristics_loop.simps) simp
  qed
qed

lemma nth_from: "map ((!) ws) [i..<length ws] = drop i ws"
  by (rule nth_equalityI) simp_all

lemma count_from:
  "length (filter (\<lambda>j. P (ws ! j)) [i..<length ws]) = length (filter P (drop i ws))"
proof -
  have "filter P (map ((!) ws) [i..<length ws]) =
        map ((!) ws) (filter (\<lambda>j. P (ws ! j)) [i..<length ws])"
    by (simp add: filter_map comp_def)
  then have "length (filter P (map ((!) ws) [i..<length ws])) =
             length (filter (\<lambda>j. P (ws ! j)) [i..<length ws])"
    by simp
  then show ?thesis
    by (simp add: nth_from)
qed

text \<open>The filler count leaves the first word out: the loop starts at index 1.\<close>

lemma analyzeHeuristics_fillers:
  "fillers (analyzeHeuristics text) =
     length (filter (\<lambda>w. w \<in> set fillerWords) (tl (words_of text)))"
  using count_from [of "\<lambda>w. w \<in> set fillerWords" "words_of text" 1]
  by (simp add: analyzeHeuristics_def Let_def heuristics_loop_counts drop_Suc)

lemma analyzeHeuristics_repeats:
  "repeats (analyzeHeuristics text) =
     length (filter (\<lambda>j. words_of text ! j = words_of text ! (j - 1))
               [1..<length (words_of text)])"
  by (simp add: analyzeHeuristics_def Let_def heuristics_loop_counts)

lemma analyzeHeuristics_score:
  "score (analyzeHeuristics text) =
     max 30 (100 - 10 * int (repeats (analyzeHeuristics text))
                 - 5 * int (fillers (analyzeHeuristics text)))"
  by (simp add: analyzeHeuristics_def Let_def split: prod.splits)

lemma analyzeHeuristics_score_range:
  "30 \<le> score (analyzeHeuristics text) \<and> score (analyzeHeuristics text) \<le> 100"
  by (simp add: analyzeHeuristics_score)

lemma analyzeHeuristics_score_100:
  "score (analyzeHeuristics text) = 100 \<longleftrightarrow>
     repeats (analyzeHeuristics text) = 0 \<and> fillers (analyzeHeuristics text) = 0"
  by (auto simp add: analyzeHeuristics_score max_def)

lemma analyzeHeuristics_empty:
  "analyzeHeuristics [] = \<lparr>score = 100, repeats = 0, fillers = 0, issues = []\<rparr>"
  by (simp add: analyzeHeuristics_def words_of_def toLowerCase_def heuristics_loop_counts)

text \<open>
  Claim C1. The analyzer is said to return as \<open>fillers\<close> the number of tokens of the text
  that belong to the lexicon um, uh, erm, hmm, like. On the text \<open>um\<close> the only token is
  in the lexicon, and the analyzer returns \<open>fillers = 0\<close> and the score 100: its loop starts
  at the second token, so the first token is compared with nothing and is not looked up
  in the lexicon either.
\<close>

theorem analyzeHeuristics_skips_first_word:
  "length (filter (\<lambda>w. w \<in> set fillerWords) (words_of ''um'')) = 1
   \<and> fillers (analyzeHeuristics ''um'') = 0
   \<and> score (analyzeHeuristics ''um'') = 100"
  by code_simp

section \<open>Tokens\<close>







section \<open>The challenge state machine\<close>

lemma trim_blank:
  assumes "\<forall>c\<in>set s. isWhiteSpace c"
  shows "trim s = []"
proof -
  have blank: "dropWhile isWhiteSpace s = []"
    using assms by (induction s) simp_all
  show ?thesis
    unfolding trim_def blank by simp
qed

lemma instant_fail_empty: "instant_fail [] = None"
  by (simp add: instant_fail_def)



subsection \<open>The invariant of the registry\<close>

lemma tick_inv_step:
  assumes "\<And>u ch. cs u = Some ch \<Longrightarrow> challenge_inv ch"
    and "snd (challenge_tick cs userId transcript now) u = Some ch'"
  shows "challenge_inv ch'"
proof (cases "u = userId")
  case False
  with assms show ?thesis
    by (auto simp: challenge_tick_def Let_def split: option.splits if_splits)
next
  case True
  show ?thesis
  proof (cases "cs userId")
    case None
    with assms True show ?thesis by (simp add: challenge_tick_def)
  next
    case (Some ch)
    then have "challenge_inv ch" by (rule assms(1))
    with assms(2) True Some show ?thesis
      by (auto simp: challenge_tick_def Let_def challenge_inv_def instant_fail_empty
          split: option.splits if_splits)
  qed
qed

lemma reachable_challenges_inv:
  "reachable_challenges cs \<Longrightarrow> cs u = Some ch \<Longrightarrow> challenge_inv ch"
proof (induction arbitrary: u ch rule: reachable_challenges.induct)
  case no_challenge
  then show ?case by simp
next
  case (started cs userId t0 t1)
  then show ?case
    by (auto simp: challenge_start_def challenge_inv_def split: if_splits)
next
  case (ticked cs userId transcript now)
  then show ?case
    using tick_inv_step [of cs userId transcript now u ch] by blast
qed

subsection \<open>Silence\<close>



subsection \<open>Fillers\<close>



subsection \<open>Repetitions\<close>

text \<open>
  Claim C4, as the code has it. For every active challenge, a tick with the transcript
  \<open>I I am fine\<close> fails and removes the record; the reason is built from the case-folded
  tokens, so it reads \<open>Repetition: "i i"\<close> and mentions \<open>i i\<close> in lower case.
\<close>

theorem tick_I_I_am_fine:
  assumes "cs userId = Some ch"
  shows "challenge_tick cs userId (Some ''I I am fine'') now =
           (TickFail (repetition_reason ''i''), cs(userId := None))
         \<and> sublist ''i i'' (repetition_reason ''i'')"
proof -
  have "instant_fail (cleanText_of (Some ''I I am fine'')) = Some (repetition_reason ''i'')"
    by code_simp
  moreover have "sublist ''i i'' (repetition_reason ''i'')"
    by code_simp
  ultimately show ?thesis
    using assms by (simp add: challenge_tick_def Let_def)
qed

theorem tick_I_I_am_fine_witness:
  "challenge_tick (snd (challenge_start Map.empty ''u'' 0 0)) ''u'' (Some ''I I am fine'') 5 =
     (TickFail (repetition_reason ''i''), (snd (challenge_start Map.empty ''u'' 0 0))(''u'' := None))"
proof -
  have rec: "snd (challenge_start Map.empty ''u'' 0 0) ''u'' =
      Some \<lparr>startTime = 0, lastTranscript = [], lastChangeTime = 0, isSpeaking = False\<rparr>"
    by (simp add: challenge_start_def)
  show ?thesis
    using tick_I_I_am_fine [where cs = "snd (challenge_start Map.empty ''u'' 0 0)" and userId = "''u''",
        OF rec, of 5]
    by simp
qed

text \<open>
  Claim C4 as it is written asks for a reason that mentions \<open>I I\<close>. The reason returned
  for a freshly started challenge does not contain that text.
\<close>

theorem tick_I_I_reason_is_case_folded:
  "fst (challenge_tick (snd (challenge_start Map.empty ''u'' 0 0)) ''u'' (Some ''I I am fine'') 5) =
     TickFail (repetition_reason ''i'')
   \<and> \<not> sublist ''I I'' (repetition_reason ''i'')"
  by code_simp

subsection \<open>The stored transcript\<close>

text \<open>
  Claim C9, as the code has it. In a registry reached by start and tick requests, after
  every tick that leaves the record of its user in place, \<open>lastTranscript\<close> is the trimmed
  transcript of that very tick, empty or not.
\<close>

theorem tick_keeps_last_transcript:
  assumes "reachable_challenges cs"
    and "snd (challenge_tick cs userId transcript now) userId = Some ch'"
  shows "lastTranscript ch' = cleanText_of transcript"
proof (cases "cs userId")
  case None
  with assms(2) show ?thesis by (simp add: challenge_tick_def)
next
  case (Some ch)
  with assms(1) have "challenge_inv ch" by (rule reachable_challenges_inv)
  with assms(2) Some show ?thesis
    by (auto simp: challenge_tick_def Let_def challenge_inv_def
        split: option.splits if_splits)
qed

theorem tick_keeps_last_transcript_witness:
  "map_option lastTranscript
     (snd (challenge_tick
        (snd (challenge_tick (snd (challenge_start Map.empty ''u'' 0 0)) ''u'' (Some ''hello'') 1000))
        ''u'' (Some '' hello there '') 1500) ''u'')
     = Some ''hello there''"
proof -
  let ?cs = "snd (challenge_tick (snd (challenge_start Map.empty ''u'' 0 0)) ''u'' (Some ''hello'') 1000)"
  have reach: "reachable_challenges ?cs"
    by (intro reachable_challenges.intros)
  have rec: "snd (challenge_tick ?cs ''u'' (Some '' hello there '') 1500) ''u'' =
      Some \<lparr>startTime = 0, lastTranscript = ''hello there'', lastChangeTime = 1500, isSpeaking = True\<rparr>"
    by code_simp
  show ?thesis
    using tick_keeps_last_transcript [where cs = "?cs" and userId = "''u''", OF reach rec]
    by (simp add: rec)
qed

text \<open>
  Claim C9 as it is written says that \<open>lastTranscript\<close> cannot become empty again. After
  \<open>hello\<close>, a tick with an empty transcript is accepted, the record stays, and its
  \<open>lastTranscript\<close> is empty.
\<close>

theorem lastTranscript_becomes_empty:
  "map_option lastTranscript
     (snd (challenge_tick (snd (challenge_start Map.empty ''u'' 0 0)) ''u'' (Some ''hello'') 1000) ''u'')
     = Some ''hello''
   \<and> fst (challenge_tick
       (snd (challenge_tick (snd (challenge_start Map.empty ''u'' 0 0)) ''u'' (Some ''hello'') 1000))
       ''u'' (Some []) 1500) = TickOk
   \<and> map_option lastTranscript
       (snd (challenge_tick
          (snd (challenge_tick (snd (challenge_start Map.empty ''u'' 0 0)) ''u'' (Some ''hello'') 1000))
          ''u'' (Some []) 1500) ''u'')
     = Some []"
  by code_simp

subsection \<open>Before the first word\<close>

text \<open>
  Claim C10. While a challenge is not yet speaking, a tick whose transcript is missing,
  empty or made of blanks only returns ok and leaves the registry as it was, whatever the
  time of the tick: the silence timeout cannot fire.
\<close>

theorem tick_before_speaking:
  assumes "cs userId = Some ch" and "\<not> isSpeaking ch"
    and "\<forall>c\<in>set (case transcript of None \<Rightarrow> [] | Some t \<Rightarrow> t). isWhiteSpace c"
  shows "challenge_tick cs userId transcript now = (TickOk, cs)"
proof -
  have "cleanText_of transcript = []"
    using assms(3) by (simp add: cleanText_of_def trim_blank)
  moreover have "cs(userId \<mapsto> ch) = cs"
    using assms(1) by (rule map_upd_triv)
  ultimately show ?thesis
    using assms(1,2) by (simp add: challenge_tick_def instant_fail_empty)
qed

theorem tick_before_speaking_witness:
  "challenge_tick (snd (challenge_start Map.empty ''u'' 0 0)) ''u'' (Some ''   '') 999999 =
     (TickOk, snd (challenge_start Map.empty ''u'' 0 0))
   \<and> challenge_tick (snd (challenge_start Map.empty ''u'' 0 0)) ''u'' None 999999 =
     (TickOk, snd (challenge_start Map.empty ''u'' 0 0))"
proof -
  have rec: "snd (challenge_start Map.empty ''u'' 0 0) ''u'' =
      Some \<lparr>startTime = 0, lastTranscript = [], lastChangeTime = 0, isSpeaking = False\<rparr>"
    by (simp add: challenge_start_def)
  have blank: "\<forall>c\<in>set ''   ''. isWhiteSpace c"
    by (simp add: isWhiteSpace_def)
  show ?thesis
    using tick_before_speaking [where cs = "snd (challenge_start Map.empty ''u'' 0 0)" and userId = "''u''",
        OF rec, of "Some ''   ''" 999999]
      tick_before_speaking [where cs = "snd (challenge_start Map.empty ''u'' 0 0)" and userId = "''u''",
        OF rec, of None 999999] blank
    by simp
qed

section \<open>The progression engine\<close>



lemma updateGamification_xp:
  "xp (snd (updateGamification today user d f)) =
     xp user + (10 + \<lfloor>d / 10\<rfloor> + (if f \<ge> 80 then 20 else 0))"
  by (simp add: updateGamification_def Let_def)

lemma updateGamification_earnedXp:
  "earnedXp (fst (updateGamification today user d f)) =
     10 + \<lfloor>d / 10\<rfloor> + (if f \<ge> 80 then 20 else 0)"
  by (simp add: updateGamification_def Let_def)




subsection \<open>Badges\<close>

lemma award_ok_init: "award_ok bs (bs, [])"
  by (simp add: award_ok_def)

lemma award_ok_append: "award_ok bs acc \<Longrightarrow> fst acc = bs @ snd acc"
  by (simp add: award_ok_def)

lemma award_ok_count: "award_ok bs acc \<Longrightarrow> count_list (fst acc) b \<le> max 1 (count_list bs b)"
  unfolding award_ok_def by blast

lemma award_ok_distinct: "award_ok bs acc \<Longrightarrow> distinct bs \<Longrightarrow> distinct (fst acc)"
  unfolding award_ok_def by blast

lemma award_ok_step: "award_ok bs acc \<Longrightarrow> award_ok bs (if c then awardBadge name acc else acc)"
  by (auto simp: award_ok_def awardBadge_def count_list_0_iff)

lemma updateGamification_badges:
  "award_ok (badges user)
     (badges (snd (updateGamification today user d f)),
      newBadges (fst (updateGamification today user d f)))"
  by (simp add: updateGamification_def Let_def award_ok_init award_ok_step del: One_nat_def)

lemma updateGamification_badges_append:
  "badges (snd (updateGamification today user d f)) =
     badges user @ newBadges (fst (updateGamification today user d f))"
  using award_ok_append [OF updateGamification_badges] by simp

lemma updateGamification_badges_count:
  assumes "count_list (badges user) b \<le> 1"
  shows "count_list (badges (snd (updateGamification today user d f))) b \<le> 1"
proof -
  have "count_list (badges (snd (updateGamification today user d f))) b
          \<le> max 1 (count_list (badges user) b)"
    using award_ok_count [OF updateGamification_badges] by simp
  with assms show ?thesis
    by simp
qed

lemma updateGamification_badges_distinct:
  assumes "distinct (badges user)"
  shows "distinct (badges (snd (updateGamification today user d f)))"
  using award_ok_distinct [OF updateGamification_badges assms] by simp

text \<open>
  Claim C7. Take a profile that holds a badge at most once, and run any sequence of
  calls on it. The badge is then still held at most once, and the number of times it is
  listed in the \<open>newBadges\<close> of the calls is the number of times it is held at the end minus
  the number at the start. So it is listed by at most one call, the call that puts it among
  the badges, and by no call when the profile held it from the start. This holds for every
  badge name, the five names of the engine among them.
\<close>

theorem badges_awarded_once:
  assumes "count_list (badges user) b \<le> 1" and "run_calls user cs = (gs, user')"
  shows "count_list (badges user') b \<le> 1
         \<and> count_list (badges user) b + count_list (concat (map newBadges gs)) b =
             count_list (badges user') b"
  using assms
proof (induction cs arbitrary: user gs)
  case Nil
  then show ?case by auto
next
  case (Cons c cs)
  obtain today d f where c: "c = (today, d, f)"
    by (cases c) auto
  let ?g = "fst (updateGamification today user d f)"
  let ?u = "snd (updateGamification today user d f)"
  obtain gs' where rest: "run_calls ?u cs = (gs', user')" and gs: "gs = ?g # gs'"
    using Cons.prems(2) c by (auto simp: Let_def split: prod.splits)
  have once: "count_list (badges ?u) b \<le> 1"
    using Cons.prems(1) by (rule updateGamification_badges_count)
  have step: "count_list (badges ?u) b = count_list (badges user) b + count_list (newBadges ?g) b"
    by (simp add: updateGamification_badges_append)
  from Cons.IH [OF once rest] step gs show ?case
    by simp
qed

text \<open>
  Two calls on a new profile: First Step is listed by the first call only, and is held once.
\<close>

theorem badges_awarded_once_witness:
  "map newBadges (fst (run_calls
       \<lparr>username = ''ann'', password = None, xp = 0, level = 1, streak = 0,
        lastActiveDate = None, badges = [],
        stats = \<lparr>totalSessions = 0, totalSeconds = 0, dailyMinutes = 0\<rparr>\<rparr>
       [(10, 30, 95), (10, 30, 95)]))
     = [[''First Step'', ''Smooth Speaker''], []]
   \<and> count_list (badges (snd (run_calls
       \<lparr>username = ''ann'', password = None, xp = 0, level = 1, streak = 0,
        lastActiveDate = None, badges = [],
        stats = \<lparr>totalSessions = 0, totalSeconds = 0, dailyMinutes = 0\<rparr>\<rparr>
       [(10, 30, 95), (10, 30, 95)]))) ''First Step'' = 1"
proof -
  let ?u = "\<lparr>username = ''ann'', password = None, xp = 0, level = 1, streak = 0,
        lastActiveDate = None, badges = [],
        stats = \<lparr>totalSessions = 0, totalSeconds = 0, dailyMinutes = 0\<rparr>\<rparr>"
  let ?cs = "[(10, 30, 95), (10, 30, 95)] :: (int \<times> rat \<times> int) list"
  have run: "run_calls ?u ?cs = (fst (run_calls ?u ?cs), snd (run_calls ?u ?cs))"
    by simp
  have news: "map newBadges (fst (run_calls ?u ?cs)) = [[''First Step'', ''Smooth Speaker''], []]"
    by (simp add: updateGamification_def awardBadge_def Let_def case_prod_beta)
  have start: "count_list (badges ?u) ''First Step'' \<le> 1"
    by simp
  show ?thesis
    using badges_awarded_once [OF start run] news by simp
qed

subsection \<open>Streak\<close>



subsection \<open>Experience points\<close>

lemma updateGamification_xp_mono:
  assumes "0 \<le> d"
  shows "xp user + 10 \<le> xp (snd (updateGamification today user d f))"
proof -
  from assms have "0 \<le> \<lfloor>d / 10\<rfloor>"
    by simp
  then show ?thesis
    by (simp add: updateGamification_xp)
qed

text \<open>
  Claim C8, as the code has it. Along every sequence of calls whose session durations are
  not negative, the stored \<open>xp\<close> does not decrease.
\<close>

theorem xp_never_decreases:
  assumes "\<forall>c\<in>set cs. 0 \<le> fst (snd c)" and "run_calls user cs = (gs, user')"
  shows "xp user \<le> xp user'"
  using assms
proof (induction cs arbitrary: user gs)
  case Nil
  then show ?case by simp
next
  case (Cons c cs)
  obtain today d f where c: "c = (today, d, f)"
    by (cases c) auto
  let ?u = "snd (updateGamification today user d f)"
  obtain gs' where rest: "run_calls ?u cs = (gs', user')"
    using Cons.prems(2) c by (auto simp: Let_def split: prod.splits)
  from Cons.prems(1) c have "0 \<le> d" and later: "\<forall>c\<in>set cs. 0 \<le> fst (snd c)"
    by simp_all
  then have "xp user \<le> xp ?u"
    using updateGamification_xp_mono [of d user today f] by simp
  also have "xp ?u \<le> xp user'"
    using later rest by (rule Cons.IH)
  finally show ?case .
qed

theorem xp_never_decreases_witness:
  "xp (snd (run_calls
       \<lparr>username = ''ann'', password = None, xp = 120, level = 2, streak = 1,
        lastActiveDate = Some 9, badges = [],
        stats = \<lparr>totalSessions = 5, totalSeconds = 300, dailyMinutes = 5\<rparr>\<rparr>
       [(10, 0, 50), (11, 60, 95)])) = 166"
proof -
  let ?u = "\<lparr>username = ''ann'', password = None, xp = 120, level = 2, streak = 1,
        lastActiveDate = Some 9, badges = [],
        stats = \<lparr>totalSessions = 5, totalSeconds = 300, dailyMinutes = 5\<rparr>\<rparr>"
  let ?cs = "[(10, 0, 50), (11, 60, 95)] :: (int \<times> rat \<times> int) list"
  have run: "run_calls ?u ?cs = (fst (run_calls ?u ?cs), snd (run_calls ?u ?cs))"
    by simp
  have durations: "\<forall>c\<in>set ?cs. 0 \<le> fst (snd c)"
    by simp
  have "xp (snd (run_calls ?u ?cs)) = 166"
    by (simp add: updateGamification_xp case_prod_beta)
  then show ?thesis
    using xp_never_decreases [OF durations run] by simp
qed

text \<open>
  Claim C8 as it is written allows any session duration. A duration of -200 seconds with
  a fluency score of 50 earns -10 points: the profile goes from 120 to 110.
\<close>

theorem xp_decreases_on_negative_duration:
  "xp (snd (updateGamification 10
       \<lparr>username = ''ann'', password = None, xp = 120, level = 2, streak = 1,
        lastActiveDate = Some 9, badges = [],
        stats = \<lparr>totalSessions = 5, totalSeconds = 300, dailyMinutes = 5\<rparr>\<rparr> (-200) 50)) = 110"
  by (simp add: updateGamification_xp)

subsection \<open>Level\<close>

lemma reachable_users_profile:
  assumes "reachable_users us" and "us u = Some p"
    and seed: "\<And>d. P \<lparr>username = ''Demo User'', password = Some ''123'', xp = 120, level = 2,
        streak = 1, lastActiveDate = Some d, badges = [''First Step''],
        stats = \<lparr>totalSessions = 5, totalSeconds = 300, dailyMinutes = 5\<rparr>\<rparr>"
    and fresh: "\<And>n pw. P \<lparr>username = n, password = pw, xp = 0, level = 1, streak = 0,
        lastActiveDate = None, badges = [],
        stats = \<lparr>totalSessions = 0, totalSeconds = 0, dailyMinutes = 0\<rparr>\<rparr>"
    and step: "\<And>q today d f. P q \<Longrightarrow> P (snd (updateGamification today q d f))"
  shows "P p"
  using assms(1,2)
proof (induction arbitrary: u p rule: reachable_users.induct)
  case (seeded d)
  then show ?case
    using seed [of d] by (auto simp: seed_users_def split: if_splits)
next
  case (registered us name pw)
  then show ?case
    using fresh [of "trim name" "Some pw"]
    by (auto simp: register_user_def Let_def split: if_splits)
next
  case (coached us today userId transcript duration ai_ok)
  show ?case
  proof (cases "us userId")
    case None
    with coached.prems coached.IH fresh [of userId None]
      step [OF fresh [of userId None]]
    show ?thesis
      by (auto simp: coach_def Let_def case_prod_beta split: option.splits if_splits)
  next
    case (Some q)
    then have "P q" by (rule coached.IH)
    with coached.prems coached.IH Some step [of q]
    show ?thesis
      by (auto simp: coach_def Let_def case_prod_beta split: option.splits if_splits)
  qed
qed

lemma reachable_users_distinct_badges:
  assumes "reachable_users us" and "us u = Some p"
  shows "distinct (badges p)"
  using assms by (rule reachable_users_profile) (simp_all add: updateGamification_badges_distinct)



end
